theory Spec2Isabelle
  imports Complex_Main
begin

section \<open>Values shared by the operations of main.js\<close>

text \<open>
  A rejected promise carries a value.  The program rejects with \<open>new Error(msg)\<close>, and so
  do the file system and the registry reader; the runtime rejects with a \<open>TypeError\<close>
  when a method of \<open>null\<close> is called (its message depends on the runtime); \<open>rcrack\<close>
  rejects with the chunk of standard error itself, which is no error object and has
  no \<open>message\<close>.
\<close>

datatype js_error = Error string | TypeError | Raw string

text \<open>\<open>err.message\<close>, as the handlers at the end of every command log it.\<close>

fun message :: "js_error \<Rightarrow> string" where
  "message (Error m) = m"
| "message TypeError = ''Cannot read properties of null''"
| "message (Raw _) = ''undefined''"

text \<open>What the program writes: \<open>console.log\<close> lines and \<open>logger.log('error', ...)\<close> lines,
  and the calls of \<open>converter\<close>, in the order they happen.  Lines logged at the levels
  below \<open>error\<close> (shown only on request) are left out.\<close>

datatype event = ConverterCalled string | ConsoleLog string | LoggerError string

text \<open>The decimal rendering of a count inside a template literal.\<close>

definition digit_char :: "nat \<Rightarrow> char" where
  "digit_char d = ''0123456789'' ! d"

fun show_nat :: "nat \<Rightarrow> string" where
  "show_nat n = (if n < 10 then [digit_char n] else show_nat (n div 10) @ [digit_char (n mod 10)])"

declare show_nat.simps [simp del]

section \<open>The orchestrator: \<open>main\<close>\<close>

text \<open>
  \<open>main\<close> expands the pattern with \<open>globPromise\<close> and folds \<open>converter\<close> over the files
  with \<open>Promise.reduce\<close>, starting from 0.  \<open>converter(file)\<close> is a promise that either
  fulfils or rejects: a batch pairs every file with the rejection its conversion ends
  with (\<open>None\<close> when it fulfils).  The reducer has no handler of its own, so the first
  rejection rejects the whole reduction and control passes to the \<open>catch\<close> at the end of
  \<open>main\<close>.  The running count \<open>total\<close> of the source is \<open>tot\<close> here.
\<close>

type_synonym batch = "(string \<times> js_error option) list"

fun reduce_files :: "nat \<Rightarrow> batch \<Rightarrow> event list \<times> (js_error + nat)" where
  "reduce_files tot [] = ([], Inr tot)"
| "reduce_files tot ((file, outcome) # files) =
     (case outcome of
        Some err \<Rightarrow> ([ConverterCalled file], Inl err)
      | None \<Rightarrow>
          (let (evs, r) = reduce_files (tot + 1) files
           in (ConverterCalled file # ConsoleLog [] # evs, r)))"

definition finished_message :: "nat \<Rightarrow> string" where
  "finished_message tot =
     ''Finished converting '' @ (if tot > 1 then show_nat tot else ''one'')
       @ '' Audiobook'' @ (if tot > 1 then ''s'' else []) @ ''!''"

definition main :: "js_error + batch \<Rightarrow> event list" where
  "main globbed =
     (case globbed of
        Inl err \<Rightarrow> [LoggerError (message err)]
      | Inr files \<Rightarrow>
          (case reduce_files 0 files of
             (evs, Inr tot) \<Rightarrow> evs @ [ConsoleLog (finished_message tot)]
           | (evs, Inl err) \<Rightarrow> evs @ [LoggerError (message err)]))"

text \<open>A batch in which every conversion fulfils, and the trace its files leave.\<close>

definition all_fulfil :: "string list \<Rightarrow> batch" where
  "all_fulfil fs = map (\<lambda>f. (f, None)) fs"

definition converted_trace :: "string list \<Rightarrow> event list" where
  "converted_trace fs = concat (map (\<lambda>f. [ConverterCalled f, ConsoleLog []]) fs)"

section \<open>Hexadecimal rendering: \<open>toHex\<close>, \<open>bytesToHex\<close>, \<open>extractBytes\<close>\<close>

text \<open>
  A registry value and a file buffer are arrays of numbers; every element is a natural
  number here.  \<open>Number(d).toString(16)\<close> writes it with the digits \<open>0-9a-f\<close> and no
  leading zero, \<open>slice(-2)\<close> keeps the last two characters, and \<open>toUpperCase\<close> acts on
  ASCII letters (the only letters \<open>toString(16)\<close> produces).
\<close>

definition hex_digit :: "nat \<Rightarrow> char" where
  "hex_digit d = ''0123456789abcdef'' ! d"

fun toString16 :: "nat \<Rightarrow> string" where
  "toString16 n = (if n < 16 then [hex_digit n] else toString16 (n div 16) @ [hex_digit (n mod 16)])"

declare toString16.simps [simp del]

definition upper_char :: "char \<Rightarrow> char" where
  "upper_char c =
     (case map_of (zip ''abcdefghijklmnopqrstuvwxyz'' ''ABCDEFGHIJKLMNOPQRSTUVWXYZ'') c of
        Some u \<Rightarrow> u
      | None \<Rightarrow> c)"

definition toUpperCase :: "string \<Rightarrow> string" where
  "toUpperCase s = map upper_char s"

definition slice_last :: "nat \<Rightarrow> 'a list \<Rightarrow> 'a list" where
  "slice_last k xs = drop (length xs - k) xs"

definition toHex :: "nat \<Rightarrow> string" where
  "toHex d = toUpperCase (slice_last 2 (CHR ''0'' # toString16 d))"

definition bytesToHex :: "nat list \<Rightarrow> string" where
  "bytesToHex byteArray = concat (map toHex byteArray)"

definition extractBytes :: "nat list \<Rightarrow> string" where
  "extractBytes byteArray = bytesToHex (rev (take 4 byteArray))"

section \<open>The activation-byte resolver\<close>

text \<open>
  What the resolver reads: the platform name, the registry reader (\<open>None\<close> when
  \<open>regeditList\<close> is not a function; otherwise the outcome of listing the key
  \<open>SWGIDMAP\<close>: a rejection, or the byte arrays of its values in enumeration order), and
  the command-line options \<open>program.activationBytes\<close> (\<open>None\<close> is the default \<open>false\<close>)
  and \<open>program.device\<close> (\<open>None\<close> is \<open>undefined\<close>).  \<open>array_props\<close> lists the names other
  than indices that an array object answers to (\<open>length\<close> and the names on its
  prototype chain), \<open>pkg_name\<close> is the name field of package.json.
\<close>

record resolver_state =
  platform :: string
  regeditList :: "(js_error + nat list list) option"
  activationBytes :: "string option"
  device :: "string option"
  array_props :: "string list"
  pkg_name :: string

text \<open>The values a variable of the resolver can hold. \<open>JProp k\<close> is the value of the
  inherited array property named \<open>k\<close> (a number or a function, never falsy for a
  non-empty array).\<close>

datatype jsval = JFalse | JUndefined | JStr string | JProp string

fun truthy :: "jsval \<Rightarrow> bool" where
  "truthy JFalse = False"
| "truthy JUndefined = False"
| "truthy (JStr s) = (s \<noteq> [])"
| "truthy (JProp k) = True"

definition option_val :: "string option \<Rightarrow> jsval" where
  "option_val v = (case v of None \<Rightarrow> JFalse | Some s \<Rightarrow> JStr s)"

definition is_digit :: "char \<Rightarrow> bool" where
  "is_digit c = (c \<in> set ''0123456789'')"

definition digit_val :: "char \<Rightarrow> nat" where
  "digit_val c = of_char c - 48"

definition dec_val :: "string \<Rightarrow> nat" where
  "dec_val s = foldl (\<lambda>a c. 10 * a + digit_val c) 0 s"

text \<open>A property key is an array index when it is the canonical decimal form of a
  number: \<open>0\<close>, or digits that do not start with \<open>0\<close>.\<close>

definition array_index :: "string \<Rightarrow> nat option" where
  "array_index k =
     (if k = ''0'' then Some 0
      else if k \<noteq> [] \<and> list_all is_digit k \<and> hd k \<noteq> CHR ''0'' then Some (dec_val k)
      else None)"

text \<open>\<open>devices[program.device]\<close>.\<close>

definition device_entry :: "string list \<Rightarrow> string list \<Rightarrow> string option \<Rightarrow> jsval" where
  "device_entry props devices dev =
     (case dev of
        None \<Rightarrow> JUndefined
      | Some k \<Rightarrow>
          (case array_index k of
             Some i \<Rightarrow> if i < length devices then JStr (devices ! i) else JUndefined
           | None \<Rightarrow> if k \<in> set props then JProp k else JUndefined))"

definition fetchActivationBytesFromDevices :: "resolver_state \<Rightarrow> js_error + string list" where
  "fetchActivationBytesFromDevices st =
     (case regeditList st of
        None \<Rightarrow>
          Inl (Error (''Optional dependency `regedit` is not installed. Try reinstalling ''
                 @ pkg_name st @ '' without ignoring `optionalDependencies`.''))
      | Some (Inl err) \<Rightarrow> Inl err
      | Some (Inr vals) \<Rightarrow>
          (let entries = map extractBytes vals;
               entries = filter (\<lambda>n. toUpperCase n \<noteq> ''FFFFFFFF'') entries
           in if length entries > 0 then Inr entries
              else Inl (Error ''Could not find any Audible Activation Bytes!'')))"

text \<open>The part of \<open>fetchActivationBytes\<close> after the device list has arrived; the
  revisions of the function share it.\<close>

definition choose_bytes :: "resolver_state \<Rightarrow> string list \<Rightarrow> js_error + jsval" where
  "choose_bytes st devices =
     (let bytes = (case devices of [] \<Rightarrow> JStr [] | d # _ \<Rightarrow> if d \<noteq> [] then JStr d else JStr []);
          bytes = (if truthy (option_val (activationBytes st))
                   then option_val (activationBytes st) else bytes);
          entry = device_entry (array_props st) devices (device st);
          bytes = (if truthy entry then entry else bytes)
      in case device st of
           None \<Rightarrow> Inr bytes
         | Some k \<Rightarrow>
             if truthy (JStr k) \<and> \<not> truthy entry
             then Inl (Error (''Device Nr. '' @ k
                    @ '' not found! Please use the 'list' command to get your devices.''))
             else Inr bytes)"

text \<open>\<open>fetchActivationBytes\<close> as main.js has it in its latest revision (and as the
  unnamed revision has it).\<close>

definition fetchActivationBytes :: "resolver_state \<Rightarrow> js_error + jsval" where
  "fetchActivationBytes st =
     (if platform st \<noteq> ''win32'' \<or> truthy (option_val (activationBytes st))
      then Inr (option_val (activationBytes st))
      else (case fetchActivationBytesFromDevices st of
              Inl err \<Rightarrow> Inl err
            | Inr devices \<Rightarrow> choose_bytes st devices))"

text \<open>The first revision in main.js tests the platform only.\<close>

definition fetchActivationBytes_rev1 :: "resolver_state \<Rightarrow> js_error + jsval" where
  "fetchActivationBytes_rev1 st =
     (if platform st \<noteq> ''win32''
      then Inr (option_val (activationBytes st))
      else (case fetchActivationBytesFromDevices st of
              Inl err \<Rightarrow> Inl err
            | Inr devices \<Rightarrow> choose_bytes st devices))"

section \<open>The checksum extractor: \<open>fetchChecksum\<close>\<close>

text \<open>
  A path names nothing that can be opened (\<open>open\<close> rejects), something that opens but
  cannot be read (\<open>read\<close> rejects, a directory for instance), or a file with its bytes.
  \<open>read(fd, buffer, 0, 20, 653)\<close> copies the bytes that exist from position 653 on, at
  most 20, to the start of the buffer and leaves the rest of the buffer as it was.
\<close>

datatype file_node = CannotOpen js_error | CannotRead js_error | Regular "nat list"

definition read_at :: "nat list \<Rightarrow> nat list \<Rightarrow> nat \<Rightarrow> nat \<Rightarrow> nat list" where
  "read_at content buffer len pos =
     (let got = take (min len (length buffer)) (drop pos content)
      in got @ drop (length got) buffer)"

definition fetchChecksum :: "file_node \<Rightarrow> event list \<times> (js_error + nat list)" where
  "fetchChecksum file =
     (let buffer = replicate 20 0
      in case file of
           CannotOpen err \<Rightarrow> ([LoggerError (message err)], Inr buffer)
         | CannotRead err \<Rightarrow> ([LoggerError (message err)], Inr buffer)
         | Regular content \<Rightarrow> ([], Inr (read_at content buffer (length buffer) 653)))"

section \<open>Progress: \<open>currentTimemarkToPercent\<close>\<close>

text \<open>\<open>s.split(c)\<close> for a one-character separator.\<close>

fun split_on :: "char \<Rightarrow> string \<Rightarrow> string list" where
  "split_on c [] = [[]]"
| "split_on c (x # xs) =
     (if x = c then [] # split_on c xs
      else (case split_on c xs of w # ws \<Rightarrow> (x # w) # ws | [] \<Rightarrow> [[x]]))"

definition field :: "string list \<Rightarrow> nat \<Rightarrow> string option" where
  "field xs i = (if i < length xs then Some (xs ! i) else None)"

text \<open>
  The conversion of a string to a number is modelled on unsigned decimal literals: a
  non-empty run of digits, and for \<open>Math.floor\<close> also such a run followed by a point
  and digits, whose floor is the value of the run.  The fraction is limited to six
  digits behind a whole part below \<open>2^32\<close>: such a literal, read as a double, cannot
  round up to the next integer.  \<open>None\<close> stands for every other string (which
  JavaScript turns into \<open>NaN\<close> or reads in another way).
\<close>

definition to_number :: "string \<Rightarrow> nat option" where
  "to_number s = (if s \<noteq> [] \<and> list_all is_digit s then Some (dec_val s) else None)"

definition floor_number :: "string \<Rightarrow> nat option" where
  "floor_number s =
     (let ip = takeWhile (\<lambda>c. c \<noteq> CHR ''.'') s; fp = dropWhile (\<lambda>c. c \<noteq> CHR ''.'') s
      in if ip \<noteq> [] \<and> list_all is_digit ip
            \<and> (fp = [] \<or> (list_all is_digit (tl fp) \<and> length (tl fp) \<le> 6 \<and> dec_val ip < 2 ^ 32))
         then Some (dec_val ip) else None)"

text \<open>
  Numbers are doubles in the source.  Up to \<open>2^53\<close> every integer is a double, sums and
  products of integers are exact, and the floor of a quotient of integers is the floor
  of the exact quotient; the model computes in the integers and answers \<open>None\<close> beyond
  that range, and for a total of 0 (where the source yields \<open>Infinity\<close> or \<open>NaN\<close>).
\<close>

definition currentTimemarkToPercent :: "string \<Rightarrow> int \<Rightarrow> int option" where
  "currentTimemarkToPercent timemark tot =
     (let t = split_on CHR '':'' timemark
      in case (Option.bind (field t 0) to_number, Option.bind (field t 1) to_number,
               Option.bind (field t 2) floor_number) of
           (Some h, Some m, Some s) \<Rightarrow>
             (let scaled = int (((h * 3600) + (m * 60) + s) * 100)
              in if tot \<noteq> 0 \<and> scaled \<le> 2 ^ 53 \<and> \<bar>tot\<bar> \<le> 2 ^ 53
                 then Some (scaled div tot) else None)
         | _ \<Rightarrow> None)"

section \<open>The regular expressions of the license reader and of the cracker adapter\<close>

text \<open>
  \<open>content.match(re)\<close> without the \<open>g\<close> flag tries the start positions from left to
  right and answers at the first position where the expression matches; every
  expression of the program has one group, which \<open>.pop()\<close> and \<open>matches[1]\<close> read.
  \<open>anchored\<close> is the match at the start of its argument and gives that group.  A string
  is the list of its characters, with codes below 256.
\<close>

fun search :: "(string \<Rightarrow> string option) \<Rightarrow> string \<Rightarrow> string option" where
  "search anchored [] = anchored []"
| "search anchored (c # cs) =
     (case anchored (c # cs) of Some g \<Rightarrow> Some g | None \<Rightarrow> search anchored cs)"

definition literal :: "string \<Rightarrow> string \<Rightarrow> string option" where
  "literal lit s = (if take (length lit) s = lit then Some (drop (length lit) s) else None)"

text \<open>\<open>[C]+[D]\<close>: the greedy \<open>+\<close> takes as many characters of the class \<open>C\<close> as it can and
  gives them back one at a time until a character of the class \<open>D\<close> follows.\<close>

fun plus_then :: "(char \<Rightarrow> bool) \<Rightarrow> (char \<Rightarrow> bool) \<Rightarrow> string \<Rightarrow> string option" where
  "plus_then C D [] = None"
| "plus_then C D (x # xs) =
     (if C x
      then (case plus_then C D xs of
              Some g \<Rightarrow> Some (x # g)
            | None \<Rightarrow> (case xs of y # _ \<Rightarrow> if D y then Some [x, y] else None | [] \<Rightarrow> None))
      else None)"

text \<open>\<open>[C]+\<close> at the end of an expression: the longest run, which must not be empty.\<close>

definition plus_run :: "(char \<Rightarrow> bool) \<Rightarrow> string \<Rightarrow> string option" where
  "plus_run C s = (if takeWhile C s = [] then None else Some (takeWhile C s))"

text \<open>\<open>[C]{n}\<close> at the end of an expression.\<close>

definition exactly :: "nat \<Rightarrow> (char \<Rightarrow> bool) \<Rightarrow> string \<Rightarrow> string option" where
  "exactly n C s = (if n \<le> length s \<and> list_all C (take n s) then Some (take n s) else None)"

definition word_or_dash :: "char \<Rightarrow> bool" where
  "word_or_dash c =
     (c \<in> set ''abcdefghijklmnopqrstuvwxyzABCDEFGHIJKLMNOPQRSTUVWXYZ0123456789_-'')"

definition white_space :: "char \<Rightarrow> bool" where
  "white_space c = (of_char c \<in> set [9, 10, 11, 12, 13, 32, 160 :: nat])"

definition not_amp :: "char \<Rightarrow> bool" where
  "not_amp c = (c \<noteq> CHR ''&'')"

definition hex_char :: "char \<Rightarrow> bool" where
  "hex_char c = (c \<in> set ''abcdefABCDEF0123456789'')"

text \<open>\<open>/key=([\w-]+[^&])/\<close>, \<open>/title=([^&]+)/\<close>, the older \<open>/title=([\w\s-]+[^&])/\<close> and
  \<open>/hex:([a-fA-F0-9]{8})/\<close>.\<close>

definition match_id :: "string \<Rightarrow> string \<Rightarrow> string option" where
  "match_id key content =
     search (\<lambda>s. Option.bind (literal (key @ ''='') s) (plus_then word_or_dash not_amp)) content"

definition match_title :: "string \<Rightarrow> string option" where
  "match_title content =
     search (\<lambda>s. Option.bind (literal ''title='' s) (plus_run not_amp)) content"

definition match_title_rev2 :: "string \<Rightarrow> string option" where
  "match_title_rev2 content =
     search (\<lambda>s. Option.bind (literal ''title='' s)
                   (plus_then (\<lambda>c. word_or_dash c \<or> white_space c) not_amp)) content"

definition match_hex :: "string \<Rightarrow> string option" where
  "match_hex out = search (\<lambda>s. Option.bind (literal ''hex:'' s) (exactly 8 hex_char)) out"

section \<open>The license reader: \<open>extractDownloadURL\<close>\<close>

text \<open>
  \<open>readFile\<close> rejects or gives the content.  A \<open>match\<close> that finds nothing is \<open>null\<close>, and
  \<open>null.pop()\<close> throws a \<open>TypeError\<close>, which the \<open>catch\<close> turns into the rejection of the
  whole promise.  The four fields are kept beside the result \<open>{url, title}\<close>, which is
  built from them.
\<close>

record license_fields =
  custId :: string
  productId :: string
  codec :: string
  title :: string

record download_info =
  url :: string
  dl_title :: string

definition pop_match :: "string option \<Rightarrow> js_error + string" where
  "pop_match m = (case m of None \<Rightarrow> Inl TypeError | Some g \<Rightarrow> Inr g)"

definition license_fields_with ::
    "(string \<Rightarrow> string option) \<Rightarrow> string \<Rightarrow> js_error + license_fields" where
  "license_fields_with title_re content =
     (case pop_match (match_id ''cust_id'' content) of
        Inl e \<Rightarrow> Inl e
      | Inr c \<Rightarrow>
     (case pop_match (match_id ''product_id'' content) of
        Inl e \<Rightarrow> Inl e
      | Inr p \<Rightarrow>
     (case pop_match (match_id ''codec'' content) of
        Inl e \<Rightarrow> Inl e
      | Inr k \<Rightarrow>
     (case pop_match (title_re content) of
        Inl e \<Rightarrow> Inl e
      | Inr t \<Rightarrow> Inr \<lparr>custId = c, productId = p, codec = k, title = t\<rparr>))))"

definition download_of :: "license_fields \<Rightarrow> download_info" where
  "download_of f =
     \<lparr>url = ''https://cds.audible.de/download?product_id='' @ productId f
              @ ''&cust_id='' @ custId f @ ''&codec='' @ codec f,
      dl_title = title f\<rparr>"

definition extractDownloadURL_with ::
    "(string \<Rightarrow> string option) \<Rightarrow> js_error + string \<Rightarrow> js_error + download_info" where
  "extractDownloadURL_with title_re adhFile =
     (case adhFile of
        Inl err \<Rightarrow> Inl err
      | Inr content \<Rightarrow>
          (case license_fields_with title_re content of
             Inl err \<Rightarrow> Inl err
           | Inr f \<Rightarrow> Inr (download_of f)))"

text \<open>The function of main.js, and the one of the unnamed older revision, which differ in
  the expression for the title.\<close>

definition extractDownloadURL :: "js_error + string \<Rightarrow> js_error + download_info" where
  "extractDownloadURL adhFile = extractDownloadURL_with match_title adhFile"

definition extractDownloadURL_rev2 :: "js_error + string \<Rightarrow> js_error + download_info" where
  "extractDownloadURL_rev2 adhFile = extractDownloadURL_with match_title_rev2 adhFile"

section \<open>The cracker adapter: \<open>rcrack\<close> and \<open>lookupChecksum\<close>\<close>

text \<open>
  The child process is seen through the events its listeners receive, in order: a spawn
  error, a chunk of standard output, a chunk of standard error.  The promise of \<open>rcrack\<close>
  settles at the first event and ignores the later ones; with no event at all it stays
  pending.  The exit code is never read.
\<close>

datatype child_event = SpawnError js_error | StdoutData string | StderrData string

datatype 'a settled = Resolved 'a | Rejected js_error | Pending

fun rcrack :: "child_event list \<Rightarrow> string settled" where
  "rcrack [] = Pending"
| "rcrack (SpawnError err # _) = Rejected err"
| "rcrack (StdoutData chunk # _) = Resolved chunk"
| "rcrack (StderrData chunk # _) = Rejected (Raw chunk)"

definition lookupChecksum :: "string \<Rightarrow> child_event list \<Rightarrow> event list \<times> unit settled" where
  "lookupChecksum checksum evs =
     (let intro = [ConsoleLog (''Looking up activation bytes for checksum: '' @ checksum),
                   ConsoleLog ''This might take a moment ...'']
      in case rcrack evs of
           Pending \<Rightarrow> (intro, Pending)
         | Rejected err \<Rightarrow> (intro, Rejected err)
         | Resolved out \<Rightarrow>
             (case match_hex out of
                None \<Rightarrow> (intro, Rejected (Error ''Activation Bytes where not found!''))
              | Some g \<Rightarrow> (intro @ [ConsoleLog (''Activation Bytes found: '' @ g)], Resolved ())))"

text \<open>All the standard output of a run, for statements about the whole text.\<close>

fun stdout_text :: "child_event list \<Rightarrow> string" where
  "stdout_text [] = []"
| "stdout_text (StdoutData chunk # evs) = chunk @ stdout_text evs"
| "stdout_text (_ # evs) = stdout_text evs"

section \<open>Hexadecimal decoding, as the specification words it\<close>

text \<open>
  The program has no decoder.  The specification speaks of decoding the eight
  hexadecimal characters back to bytes: two characters a byte, the first the high half,
  letters in either case.
\<close>

definition spec_hex_value :: "char \<Rightarrow> nat option" where
  "spec_hex_value c =
     (let n = (of_char c :: nat)
      in if 48 \<le> n \<and> n \<le> 57 then Some (n - 48)
         else if 65 \<le> n \<and> n \<le> 70 then Some (n - 55)
         else if 97 \<le> n \<and> n \<le> 102 then Some (n - 87)
         else None)"

fun spec_hex_decode :: "string \<Rightarrow> nat list option" where
  "spec_hex_decode [] = Some []"
| "spec_hex_decode [c] = None"
| "spec_hex_decode (a # b # cs) =
     (case (spec_hex_value a, spec_hex_value b, spec_hex_decode cs) of
        (Some h, Some l, Some bs) \<Rightarrow> Some ((16 * h + l) # bs)
      | _ \<Rightarrow> None)"

section \<open>Properties of the orchestrator\<close>

lemma reduce_files_all_fulfil:
  "reduce_files tot (all_fulfil fs) = (converted_trace fs, Inr (tot + length fs))"
  by (induction fs arbitrary: tot) (simp_all add: all_fulfil_def converted_trace_def)

lemma reduce_files_first_rejection:
  "reduce_files tot (all_fulfil fs @ (g, Some err) # rest)
     = (converted_trace fs @ [ConverterCalled g], Inl err)"
  by (induction fs arbitrary: tot) (simp_all add: all_fulfil_def converted_trace_def)

lemma main_all_fulfil:
  "main (Inr (all_fulfil fs)) = converted_trace fs @ [ConsoleLog (finished_message (length fs))]"
  by (simp add: main_def reduce_files_all_fulfil)

text \<open>
  C1 (as the code has it).  Files are converted one at a time in input order.  When the
  conversions of the files \<open>fs\<close> fulfil and the conversion of the next file \<open>g\<close> rejects,
  \<open>converter\<close> has been called for \<open>fs\<close> and for \<open>g\<close> and for no file after \<open>g\<close>, the
  message of the rejection is logged, and no count is reported.  When every
  conversion fulfils, every file has been converted and the count reported is the
  number of files.
\<close>

theorem main_stops_at_first_rejection:
  "main (Inr (all_fulfil fs @ (g, Some err) # rest))
     = converted_trace fs @ [ConverterCalled g, LoggerError (message err)]
   \<and> main (Inr (all_fulfil fs))
     = converted_trace fs @ [ConsoleLog (finished_message (length fs))]"
  by (simp add: main_def reduce_files_first_rejection reduce_files_all_fulfil)

text \<open>
  C1 as the specification states it fails: in a batch of two files where the first
  conversion rejects, the second file is never handed to \<open>converter\<close> and nothing but
  the error is written.
\<close>

theorem main_continues_counterexample:
  "main (Inr [(''a.aax'', Some (Error ''Not a valid AAX File!'')), (''b.aax'', None)])
     = [ConverterCalled ''a.aax'', LoggerError ''Not a valid AAX File!'']
   \<and> ConverterCalled ''b.aax''
       \<notin> set (main (Inr [(''a.aax'', Some (Error ''Not a valid AAX File!'')), (''b.aax'', None)]))"
  by (simp add: main_def)

text \<open>
  C10.  Whenever the reduction of a batch completes with a count \<open>tot\<close>, the last line
  written is the report; for \<open>tot \<le> 1\<close> it reads "one Audiobook", and the number (with the
  plural) appears only for \<open>tot > 1\<close>.  A batch of no files completes with 0 and is
  reported as "one Audiobook" too.
\<close>

theorem main_report_wording:
  "(reduce_files 0 b = (evs, Inr tot) \<longrightarrow>
      main (Inr b) = evs @ [ConsoleLog
        (if tot \<le> 1 then ''Finished converting one Audiobook!''
         else ''Finished converting '' @ show_nat tot @ '' Audiobooks!'')])
   \<and> main (Inr []) = [ConsoleLog ''Finished converting one Audiobook!'']"
  by (simp add: main_def finished_message_def)

theorem main_report_wording_witness:
  "reduce_files 0 [(''a.aax'', None)] = ([ConverterCalled ''a.aax'', ConsoleLog []], Inr 1)
   \<and> main (Inr [(''a.aax'', None)])
       = [ConverterCalled ''a.aax'', ConsoleLog [], ConsoleLog ''Finished converting one Audiobook!'']"
proof -
  have h: "reduce_files 0 [(''a.aax'', None)] = ([ConverterCalled ''a.aax'', ConsoleLog []], Inr 1)"
    by simp
  from main_report_wording [of "[(''a.aax'', None)]" "[ConverterCalled ''a.aax'', ConsoleLog []]" 1] h
  show ?thesis by simp
qed

section \<open>Properties of the hexadecimal rendering\<close>

lemma below_16_cases:
  "k < 16 \<Longrightarrow> k \<in> set [0, 1, 2, 3, 4, 5, 6, 7, 8, 9, 10, 11, 12, 13, 14, 15 :: nat]"
  by (simp; arith)

lemma upper_hex_digits: "map upper_char ''0123456789abcdef'' = ''0123456789ABCDEF''"
  by (simp add: upper_char_def)

lemma upper_hex_digit:
  assumes "k < 16"
  shows "upper_char (hex_digit k) = ''0123456789ABCDEF'' ! k"
proof -
  have "upper_char (hex_digit k) = map upper_char ''0123456789abcdef'' ! k"
    unfolding hex_digit_def using assms by (subst nth_map) simp_all
  then show ?thesis by (simp only: upper_hex_digits)
qed

lemma hex_values: "map spec_hex_value ''0123456789ABCDEF'' = map Some [0..<16]"
  by (simp add: spec_hex_value_def upt_rec)

lemma upper_hex_digit_value:
  assumes "k < 16"
  shows "spec_hex_value (upper_char (hex_digit k)) = Some k"
proof -
  have "spec_hex_value (''0123456789ABCDEF'' ! k) = map spec_hex_value ''0123456789ABCDEF'' ! k"
    using assms by (subst nth_map) simp_all
  also have "\<dots> = map Some [0..<16] ! k"
    by (simp only: hex_values)
  also have "\<dots> = Some k"
    using assms by (subst nth_map) simp_all
  finally show ?thesis by (simp only: upper_hex_digit [OF assms])
qed

lemma upper_hex_digit_class:
  assumes "k < 16"
  shows "upper_char (hex_digit k) \<in> set ''0123456789ABCDEF''"
proof -
  have "''0123456789ABCDEF'' ! k \<in> set ''0123456789ABCDEF''"
    by (rule nth_mem) (use assms in simp)
  then show ?thesis by (simp only: upper_hex_digit [OF assms])
qed

lemma toString16_byte:
  assumes "d < 256"
  shows "CHR ''0'' # toString16 d
           = (if d < 16 then [CHR ''0'', hex_digit d] else [CHR ''0'', hex_digit (d div 16), hex_digit (d mod 16)])"
proof (cases "d < 16")
  case True
  then show ?thesis by (simp add: toString16.simps [of d])
next
  case False
  with assms have "d div 16 < 16" by simp
  then have "toString16 (d div 16) = [hex_digit (d div 16)]"
    by (simp add: toString16.simps [of "d div 16"])
  with False show ?thesis by (simp add: toString16.simps [of d])
qed

lemma toHex_byte:
  assumes "d < 256"
  shows "toHex d = [upper_char (hex_digit (d div 16)), upper_char (hex_digit (d mod 16))]"
proof (cases "d < 16")
  case True
  then show ?thesis
    using toString16_byte [OF assms]
    by (simp add: toHex_def slice_last_def toUpperCase_def upper_char_def hex_digit_def)
next
  case False
  then show ?thesis
    using toString16_byte [OF assms]
    by (simp add: toHex_def slice_last_def toUpperCase_def)
qed

lemma bytesToHex_decodes:
  "\<forall>b \<in> set bs. b < 256 \<Longrightarrow> spec_hex_decode (bytesToHex bs) = Some bs"
proof (induction bs)
  case Nil
  then show ?case by (simp add: bytesToHex_def)
next
  case (Cons b bs)
  then have b: "b < 256" and rest: "spec_hex_decode (bytesToHex bs) = Some bs"
    by simp_all
  from b have "b div 16 < 16" and "b mod 16 < 16" by simp_all
  then have "spec_hex_value (upper_char (hex_digit (b div 16))) = Some (b div 16)"
    and "spec_hex_value (upper_char (hex_digit (b mod 16))) = Some (b mod 16)"
    by (simp_all add: upper_hex_digit_value)
  moreover have "bytesToHex (b # bs) = toHex b @ bytesToHex bs"
    by (simp add: bytesToHex_def)
  ultimately show ?case
    using rest by (simp add: toHex_byte [OF b])
qed

lemma bytesToHex_length:
  "\<forall>b \<in> set bs. b < 256 \<Longrightarrow> length (bytesToHex bs) = 2 * length bs"
  by (induction bs) (simp_all add: bytesToHex_def toHex_byte)

lemma bytesToHex_upper:
  "\<forall>b \<in> set bs. b < 256 \<Longrightarrow> set (bytesToHex bs) \<subseteq> set ''0123456789ABCDEF''"
proof (induction bs)
  case Nil
  then show ?case by (simp add: bytesToHex_def)
next
  case (Cons b bs)
  then have b: "b < 256" by simp
  then have "b div 16 < 16" and "b mod 16 < 16" by simp_all
  then have "upper_char (hex_digit (b div 16)) \<in> set ''0123456789ABCDEF''"
    and "upper_char (hex_digit (b mod 16)) \<in> set ''0123456789ABCDEF''"
    by (simp_all add: upper_hex_digit_class del: set_simps list.set)
  moreover have "set (bytesToHex bs) \<subseteq> set ''0123456789ABCDEF''"
    using Cons by simp
  moreover have "bytesToHex (b # bs) = toHex b @ bytesToHex bs"
    by (simp add: bytesToHex_def)
  ultimately show ?case
    unfolding toHex_byte [OF b] by simp
qed

text \<open>
  C9 (as the code has it).  For a byte array of at least four elements, all of them in
  0..255, \<open>extractBytes\<close> yields eight characters out of \<open>0-9A-F\<close>, and decoding them
  gives the first four bytes in reversed order (\<open>extractBytes\<close> reverses the slice
  before it encodes).  \<open>bytesToHex\<close> on the first four bytes, without the reversal,
  decodes to exactly those bytes.
\<close>

theorem extractBytes_decodes_reversed:
  assumes "4 \<le> length byteArray" and "\<forall>b \<in> set byteArray. b < 256"
  shows "spec_hex_decode (extractBytes byteArray) = Some (rev (take 4 byteArray))
       \<and> spec_hex_decode (bytesToHex (take 4 byteArray)) = Some (take 4 byteArray)
       \<and> length (extractBytes byteArray) = 8
       \<and> set (extractBytes byteArray) \<subseteq> set ''0123456789ABCDEF''"
proof -
  have small: "\<forall>b \<in> set (take 4 byteArray). b < 256"
    using assms(2) by (meson in_set_takeD)
  then have small_rev: "\<forall>b \<in> set (rev (take 4 byteArray)). b < 256"
    by simp
  have "length (rev (take 4 byteArray)) = 4"
    using assms(1) by simp
  then have "length (extractBytes byteArray) = 8"
    using bytesToHex_length [OF small_rev] by (simp add: extractBytes_def)
  then show ?thesis
    using bytesToHex_decodes [OF small_rev] bytesToHex_decodes [OF small]
      bytesToHex_upper [OF small_rev]
    by (simp add: extractBytes_def)
qed

theorem extractBytes_decodes_reversed_witness:
  "4 \<le> length [1, 2, 3, 4, 5 :: nat]
   \<and> spec_hex_decode (extractBytes [1, 2, 3, 4, 5]) = Some [4, 3, 2, 1]
   \<and> spec_hex_decode (bytesToHex (take 4 [1, 2, 3, 4, 5])) = Some [1, 2, 3, 4]"
proof -
  have h1: "4 \<le> length [1, 2, 3, 4, 5 :: nat]" by simp
  have h2: "\<forall>b \<in> set [1, 2, 3, 4, 5 :: nat]. b < 256" by simp
  from extractBytes_decodes_reversed [OF h1 h2] h1 h2 show ?thesis by simp
qed

text \<open>
  C9 as the specification states it fails: the bytes 1, 2, 3, 4 are encoded by
  \<open>extractBytes\<close> as 04030201, which does not decode to 1, 2, 3, 4.
\<close>

theorem extractBytes_roundtrip_counterexample:
  "extractBytes [1, 2, 3, 4] = ''04030201''
   \<and> spec_hex_decode (extractBytes [1, 2, 3, 4]) \<noteq> Some [1, 2, 3, 4]"
  by code_simp

section \<open>Properties of the activation-byte resolver\<close>

lemma devices_without_sentinel:
  "fetchActivationBytesFromDevices st = Inr entries \<Longrightarrow> n \<in> set entries
     \<Longrightarrow> toUpperCase n \<noteq> ''FFFFFFFF''"
  by (auto simp: fetchActivationBytesFromDevices_def Let_def
           split: option.splits sum.splits if_splits)

lemma device_entry_origin:
  "device_entry props devices dev = JStr s \<Longrightarrow> s \<in> set devices"
  by (auto simp: device_entry_def split: option.splits if_splits)

lemma choose_bytes_origin:
  assumes "choose_bytes st devices = Inr (JStr s)"
  shows "s = [] \<or> s \<in> set devices \<or> activationBytes st = Some s"
proof -
  let ?entry = "device_entry (array_props st) devices (device st)"
  have first: "(case devices of [] \<Rightarrow> JStr [] | d # _ \<Rightarrow> if d \<noteq> [] then JStr d else JStr []) = JStr t
      \<Longrightarrow> t = [] \<or> t \<in> set devices" for t
    by (auto split: list.splits if_splits)
  show ?thesis
  proof (cases "truthy ?entry")
    case True
    with assms have "?entry = JStr s"
      by (auto simp: choose_bytes_def Let_def split: option.splits if_splits)
    then show ?thesis by (auto dest: device_entry_origin)
  next
    case False
    show ?thesis
    proof (cases "truthy (option_val (activationBytes st))")
      case True
      with False assms have "option_val (activationBytes st) = JStr s"
        by (auto simp: choose_bytes_def Let_def split: option.splits if_splits)
      then show ?thesis by (auto simp: option_val_def split: option.splits)
    next
      case no_explicit: False
      with False assms
      have "(case devices of [] \<Rightarrow> JStr [] | d # _ \<Rightarrow> if d \<noteq> [] then JStr d else JStr []) = JStr s"
        by (auto simp: choose_bytes_def Let_def split: option.splits if_splits)
      then show ?thesis using first by blast
    qed
  qed
qed

lemma empty_not_sentinel: "toUpperCase [] \<noteq> ''FFFFFFFF''"
  by (simp add: toUpperCase_def)

text \<open>
  C6 (as the code has it).  The device list that \<open>fetchActivationBytesFromDevices\<close>
  enumerates never contains the sentinel FFFFFFFF, whatever the registry holds.  The
  resolver, in both revisions, returns a sentinel value only when that value is the
  explicit secret the user supplied: an explicit secret is handed on unchecked.
\<close>

theorem sentinel_only_when_explicit:
  "(fetchActivationBytesFromDevices st = Inr entries \<longrightarrow>
      ''FFFFFFFF'' \<notin> set entries \<and> (\<forall>n \<in> set entries. toUpperCase n \<noteq> ''FFFFFFFF''))
   \<and> (activationBytes st \<noteq> Some s \<and> toUpperCase s = ''FFFFFFFF'' \<longrightarrow>
        fetchActivationBytes st \<noteq> Inr (JStr s) \<and> fetchActivationBytes_rev1 st \<noteq> Inr (JStr s))"
proof (intro conjI impI)
  assume d: "fetchActivationBytesFromDevices st = Inr entries"
  show all: "\<forall>n \<in> set entries. toUpperCase n \<noteq> ''FFFFFFFF''"
    using devices_without_sentinel [OF d] by blast
  have "toUpperCase ''FFFFFFFF'' = ''FFFFFFFF''"
    by (simp add: toUpperCase_def upper_char_def)
  with all show "''FFFFFFFF'' \<notin> set entries" by blast
next
  assume a: "activationBytes st \<noteq> Some s \<and> toUpperCase s = ''FFFFFFFF''"
  show "fetchActivationBytes st \<noteq> Inr (JStr s)"
  proof
    assume r: "fetchActivationBytes st = Inr (JStr s)"
    show False
    proof (cases "platform st \<noteq> ''win32'' \<or> truthy (option_val (activationBytes st))")
      case True
      with r have "option_val (activationBytes st) = JStr s"
        by (simp add: fetchActivationBytes_def)
      with a show False by (auto simp: option_val_def split: option.splits)
    next
      case False
      with r obtain devices where d: "fetchActivationBytesFromDevices st = Inr devices"
        and c: "choose_bytes st devices = Inr (JStr s)"
        by (auto simp: fetchActivationBytes_def split: sum.splits)
      from choose_bytes_origin [OF c] a devices_without_sentinel [OF d] empty_not_sentinel
      show False by auto
    qed
  qed
  show "fetchActivationBytes_rev1 st \<noteq> Inr (JStr s)"
  proof
    assume r: "fetchActivationBytes_rev1 st = Inr (JStr s)"
    show False
    proof (cases "platform st \<noteq> ''win32''")
      case True
      with r have "option_val (activationBytes st) = JStr s"
        by (simp add: fetchActivationBytes_rev1_def)
      with a show False by (auto simp: option_val_def split: option.splits)
    next
      case False
      with r obtain devices where d: "fetchActivationBytesFromDevices st = Inr devices"
        and c: "choose_bytes st devices = Inr (JStr s)"
        by (auto simp: fetchActivationBytes_rev1_def split: sum.splits)
      from choose_bytes_origin [OF c] a devices_without_sentinel [OF d] empty_not_sentinel
      show False by auto
    qed
  qed
qed

theorem sentinel_only_when_explicit_witness:
  "fetchActivationBytesFromDevices
      \<lparr>platform = ''win32'', regeditList = Some (Inr [[1, 2, 3, 4], [255, 255, 255, 255]]),
       activationBytes = None, device = None, array_props = [''length''],
       pkg_name = ''audible-converter''\<rparr> = Inr [''04030201'']
   \<and> ''FFFFFFFF'' \<notin> set [''04030201'']
   \<and> fetchActivationBytes
      \<lparr>platform = ''win32'', regeditList = Some (Inr [[1, 2, 3, 4], [255, 255, 255, 255]]),
       activationBytes = None, device = None, array_props = [''length''],
       pkg_name = ''audible-converter''\<rparr> \<noteq> Inr (JStr ''FFFFFFFF'')"
proof -
  let ?st = "\<lparr>platform = ''win32'', regeditList = Some (Inr [[1, 2, 3, 4], [255, 255, 255, 255]]),
       activationBytes = None, device = None, array_props = [''length''],
       pkg_name = ''audible-converter''\<rparr>"
  have h1: "fetchActivationBytesFromDevices ?st = Inr [''04030201'']"
    by code_simp
  have h2: "activationBytes ?st \<noteq> Some ''FFFFFFFF'' \<and> toUpperCase ''FFFFFFFF'' = ''FFFFFFFF''"
    by code_simp
  from sentinel_only_when_explicit [of ?st "[''04030201'']" "''FFFFFFFF''"] h1 h2
  show ?thesis by blast
qed

text \<open>
  C6 as the specification states it fails: with FFFFFFFF given on the command line
  (the option's pattern admits it) the resolver returns the sentinel, although the
  device table holds a sentinel entry that enumeration drops.
\<close>

theorem sentinel_returned_counterexample:
  "fetchActivationBytes
      \<lparr>platform = ''win32'', regeditList = Some (Inr [[1, 2, 3, 4], [255, 255, 255, 255]]),
       activationBytes = Some ''FFFFFFFF'', device = None, array_props = [''length''],
       pkg_name = ''audible-converter''\<rparr> = Inr (JStr ''FFFFFFFF'')"
  by code_simp

text \<open>
  The later revisions of \<open>fetchActivationBytes\<close> test the explicit secret before the
  registry is read.  There the explicit secret is returned whatever the platform, the
  registry (empty or not) and the requested device index are; the device table is
  not even read.
\<close>

lemma fetchActivationBytes_explicit_wins:
  "activationBytes st = Some s \<Longrightarrow> s \<noteq> [] \<Longrightarrow> fetchActivationBytes st = Inr (JStr s)"
  by (simp add: fetchActivationBytes_def option_val_def)

lemma fetchActivationBytes_explicit_wins_example:
  "fetchActivationBytesFromDevices
      \<lparr>platform = ''win32'', regeditList = Some (Inr [[1, 2, 3, 4]]),
       activationBytes = Some ''1CEB00DA'', device = Some ''0'', array_props = [''length''],
       pkg_name = ''audible-converter''\<rparr> = Inr [''04030201'']
   \<and> fetchActivationBytes
      \<lparr>platform = ''win32'', regeditList = Some (Inr [[1, 2, 3, 4]]),
       activationBytes = Some ''1CEB00DA'', device = Some ''0'', array_props = [''length''],
       pkg_name = ''audible-converter''\<rparr> = Inr (JStr ''1CEB00DA'')"
proof -
  let ?st = "\<lparr>platform = ''win32'', regeditList = Some (Inr [[1, 2, 3, 4]]),
       activationBytes = Some ''1CEB00DA'', device = Some ''0'', array_props = [''length''],
       pkg_name = ''audible-converter''\<rparr>"
  have h1: "activationBytes ?st = Some ''1CEB00DA''" by simp
  have h2: "''1CEB00DA'' \<noteq> []" by simp
  have h3: "fetchActivationBytesFromDevices ?st = Inr [''04030201'']" by code_simp
  from fetchActivationBytes_explicit_wins [OF h1 h2] h3 show ?thesis by blast
qed

text \<open>
  C4.  When the user supplied an explicit secret and the device table is not empty,
  the resolver is to return the explicit secret, whatever the table holds and
  whatever device index is requested.  The first revision of \<open>fetchActivationBytes\<close> in
  main.js breaks this: it lacks the test of the explicit secret before the registry
  is read, which the later revisions have.  On \<open>win32\<close> with the secret 1CEB00DA and a
  table of one device, a request for device 0 returns that device's bytes instead of
  the secret, and a request for device 5 fails with the "not found" error.
\<close>

theorem fetchActivationBytes_rev1_device_overrides:
  "fetchActivationBytes_rev1
      \<lparr>platform = ''win32'', regeditList = Some (Inr [[1, 2, 3, 4]]),
       activationBytes = Some ''1CEB00DA'', device = Some ''0'', array_props = [''length''],
       pkg_name = ''audible-converter''\<rparr> = Inr (JStr ''04030201'')
   \<and> fetchActivationBytes_rev1
      \<lparr>platform = ''win32'', regeditList = Some (Inr [[1, 2, 3, 4]]),
       activationBytes = Some ''1CEB00DA'', device = Some ''5'', array_props = [''length''],
       pkg_name = ''audible-converter''\<rparr> = Inl (Error ''Device Nr. 5 not found! Please use the 'list' command to get your devices.'')"
  by code_simp

text \<open>
  C7 (as the code has it).  On \<open>win32\<close>, when no explicit secret was supplied and the
  registry yielded a non-empty device list, a requested device index beyond the list
  makes \<open>fetchActivationBytes\<close> fail with the "not found" error that names the index as
  it was typed.
\<close>

theorem fetchActivationBytes_device_not_found:
  assumes "platform st = ''win32''" and "activationBytes st = None"
    and "fetchActivationBytesFromDevices st = Inr devices"
    and "device st = Some k" and "array_index k = Some i" and "length devices \<le> i"
  shows "fetchActivationBytes st
           = Inl (Error (''Device Nr. '' @ k @ '' not found! Please use the 'list' command to get your devices.''))"
proof -
  from assms(5) have "k \<noteq> []"
    by (auto simp: array_index_def)
  moreover have "device_entry (array_props st) devices (device st) = JUndefined"
    using assms(4,5,6) by (simp add: device_entry_def)
  ultimately show ?thesis
    using assms(1,2,3,4) by (simp add: fetchActivationBytes_def choose_bytes_def option_val_def)
qed


theorem fetchActivationBytes_device_not_found_witness:
  "fetchActivationBytes
      \<lparr>platform = ''win32'', regeditList = Some (Inr [[1, 2, 3, 4]]),
       activationBytes = None, device = Some ''5'', array_props = [''length''],
       pkg_name = ''audible-converter''\<rparr> = Inl (Error ''Device Nr. 5 not found! Please use the 'list' command to get your devices.'')"
proof -
  let ?st = "\<lparr>platform = ''win32'', regeditList = Some (Inr [[1, 2, 3, 4]]),
       activationBytes = None, device = Some ''5'', array_props = [''length''],
       pkg_name = ''audible-converter''\<rparr>"
  have h1: "platform ?st = ''win32''" by simp
  have h2: "activationBytes ?st = None" by simp
  have h3: "fetchActivationBytesFromDevices ?st = Inr [''04030201'']" by code_simp
  have h4: "device ?st = Some ''5''" by simp
  have h5: "array_index ''5'' = Some 5" by code_simp
  have h6: "length [''04030201''] \<le> (5::nat)" by simp
  from fetchActivationBytes_device_not_found [OF h1 h2 h3 h4 h5 h6]
  show ?thesis by simp
qed

text \<open>
  C7 as the specification states it fails: when an explicit secret is supplied as well,
  the absent device index raises no error and the secret is returned.
\<close>

theorem device_not_found_counterexample:
  "fetchActivationBytes
      \<lparr>platform = ''win32'', regeditList = Some (Inr [[1, 2, 3, 4]]),
       activationBytes = Some ''1CEB00DA'', device = Some ''5'', array_props = [''length''],
       pkg_name = ''audible-converter''\<rparr> = Inr (JStr ''1CEB00DA'')"
  by code_simp

section \<open>Properties of the checksum extractor\<close>

lemma read_at_zero_buffer:
  "read_at content (replicate 20 0) 20 653
     = take 20 (drop 653 content) @ replicate (20 - (length content - 653)) 0"
  by (simp add: read_at_def Let_def min_def)

text \<open>
  C5 (as the code has it).  \<open>fetchChecksum\<close> never rejects and always yields 20 bytes.
  They are all zero when the file cannot be opened or read (the error is logged) and
  when the file has at most 653 bytes.  In general they are the bytes the file has
  from offset 653 on, at most 20, followed by zeros: a short read is not an error
  and the count of bytes read is not looked at.
\<close>

theorem fetchChecksum_zero_padded:
  "(\<exists>b. snd (fetchChecksum file) = Inr b \<and> length b = 20)
   \<and> fetchChecksum (CannotOpen err) = ([LoggerError (message err)], Inr (replicate 20 0))
   \<and> fetchChecksum (CannotRead err) = ([LoggerError (message err)], Inr (replicate 20 0))
   \<and> fetchChecksum (Regular content)
        = ([], Inr (take 20 (drop 653 content) @ replicate (20 - (length content - 653)) 0))
   \<and> (length content \<le> 653 \<longrightarrow> fetchChecksum (Regular content) = ([], Inr (replicate 20 0)))"
proof -
  have regular: "fetchChecksum (Regular content)
        = ([], Inr (take 20 (drop 653 content) @ replicate (20 - (length content - 653)) 0))"
    for content
    by (simp add: fetchChecksum_def read_at_zero_buffer)
  have "\<exists>b. snd (fetchChecksum file) = Inr b \<and> length b = 20"
  proof (cases "file")
    case (Regular content)
    then show ?thesis by (simp add: regular min_def)
  qed (simp_all add: fetchChecksum_def)
  then show ?thesis
    by (simp add: regular) (simp add: fetchChecksum_def)
qed

theorem fetchChecksum_zero_padded_witness:
  "length (replicate 100 (7::nat)) \<le> 653
   \<and> fetchChecksum (Regular (replicate 100 7)) = ([], Inr (replicate 20 0))"
proof -
  have h: "length (replicate 100 (7::nat)) \<le> 653" by simp
  from fetchChecksum_zero_padded [of _ _ "replicate 100 7"] h show ?thesis by blast
qed

text \<open>
  C5 as the specification states it fails: a file of 654 bytes (fewer than 673) whose
  last byte is 255 yields a fingerprint that starts with 255, not the all-zero one.
\<close>

theorem fetchChecksum_short_file_counterexample:
  "length (replicate 653 0 @ [255 :: nat]) < 673
   \<and> snd (fetchChecksum (Regular (replicate 653 0 @ [255]))) = Inr (255 # replicate 19 0)
   \<and> snd (fetchChecksum (Regular (replicate 653 0 @ [255]))) \<noteq> Inr (replicate 20 0)"
proof -
  have "snd (fetchChecksum (Regular (replicate 653 0 @ [255]))) = Inr (255 # replicate 19 0)"
    by (simp add: fetchChecksum_def read_at_zero_buffer)
  moreover have "255 # replicate 19 0 \<noteq> replicate 20 (0::nat)"
    by code_simp
  ultimately show ?thesis by simp
qed

section \<open>Properties of the progress computation\<close>

lemma split_on_no_separator: "c \<notin> set a \<Longrightarrow> split_on c a = [a]"
  by (induction a) auto

lemma split_on_first_separator: "c \<notin> set a \<Longrightarrow> split_on c (a @ c # r) = a # split_on c r"
  by (induction a) auto

lemma digits_without:
  assumes "list_all is_digit s" and "\<not> is_digit c"
  shows "c \<notin> set s"
  using assms by (auto simp: list_all_iff)

lemma colon_point_not_digits: "\<not> is_digit CHR '':''" "\<not> is_digit CHR ''.''"
  by (simp_all add: is_digit_def)

lemma floor_number_literal:
  assumes "ss \<noteq> []" and "list_all is_digit ss"
    and "fpart = [] \<or> (\<exists>fs. fpart = CHR ''.'' # fs \<and> list_all is_digit fs
            \<and> length fs \<le> 6 \<and> dec_val ss < 2 ^ 32)"
  shows "floor_number (ss @ fpart) = Some (dec_val ss)"
proof -
  have no_point: "\<forall>c \<in> set ss. c \<noteq> CHR ''.''"
    using digits_without [OF assms(2) colon_point_not_digits(2)] by blast
  have tw: "takeWhile (\<lambda>c. c \<noteq> CHR ''.'') ss = ss"
    using no_point by (simp add: takeWhile_eq_all_conv)
  from assms(3) show ?thesis
  proof
    assume e: "fpart = []"
    have "dropWhile (\<lambda>c. c \<noteq> CHR ''.'') ss = []"
      using no_point by simp
    then show ?thesis
      using assms(1,2) by (simp add: floor_number_def Let_def tw e)
  next
    assume "\<exists>fs. fpart = CHR ''.'' # fs \<and> list_all is_digit fs
            \<and> length fs \<le> 6 \<and> dec_val ss < 2 ^ 32"
    then obtain fs where fs: "fpart = CHR ''.'' # fs" "list_all is_digit fs"
      "length fs \<le> 6" "dec_val ss < 2 ^ 32" by blast
    have "takeWhile (\<lambda>c. c \<noteq> CHR ''.'') (ss @ fpart) = ss"
      using no_point fs(1) by (simp add: takeWhile_append2 tw)
    moreover have "dropWhile (\<lambda>c. c \<noteq> CHR ''.'') (ss @ fpart) = fpart"
      using no_point fs(1) by (simp add: dropWhile_append2)
    ultimately show ?thesis
      using assms(1,2) fs by (simp add: floor_number_def Let_def)
  qed
qed

lemma timemark_fields:
  assumes "list_all is_digit hs" and "list_all is_digit ms" and "list_all is_digit ss"
    and "fpart = [] \<or> (\<exists>fs. fpart = CHR ''.'' # fs \<and> list_all is_digit fs)"
  shows "split_on CHR '':'' (hs @ '':'' @ ms @ '':'' @ ss @ fpart) = [hs, ms, ss @ fpart]"
proof -
  have c: "CHR '':'' \<notin> set hs" "CHR '':'' \<notin> set ms" "CHR '':'' \<notin> set ss"
    using assms(1,2,3) colon_point_not_digits(1) by (auto dest: digits_without)
  have "CHR '':'' \<notin> set fpart"
    using assms(4) colon_point_not_digits(1) by (auto dest: digits_without)
  with c(3) have "CHR '':'' \<notin> set (ss @ fpart)" by simp
  then have "split_on CHR '':'' (ss @ fpart) = [ss @ fpart]"
    by (rule split_on_no_separator)
  then show ?thesis
    using c(1,2) by (simp add: split_on_first_separator)
qed

text \<open>
  C2 (as the code has it).  For a timemark \<open>H:MM:SS\<close> of decimal digits, the seconds
  possibly with a fraction of up to six digits, and a positive total,
  \<open>currentTimemarkToPercent\<close> returns the floor of
  \<open>(H * 3600 + MM * 60 + floor SS) * 100 / total\<close>, within the range where the doubles of
  the source are exact.  For "1:02:03" and 3800 that is 97.
\<close>

theorem currentTimemarkToPercent_formula:
  assumes "hs \<noteq> []" and "list_all is_digit hs"
    and "ms \<noteq> []" and "list_all is_digit ms"
    and "ss \<noteq> []" and "list_all is_digit ss"
    and "fpart = [] \<or> (\<exists>fs. fpart = CHR ''.'' # fs \<and> list_all is_digit fs
            \<and> length fs \<le> 6 \<and> dec_val ss < 2 ^ 32)"
    and "0 < tot" and "tot \<le> 2 ^ 53"
    and "(dec_val hs * 3600 + dec_val ms * 60 + dec_val ss) * 100 \<le> 2 ^ 53"
  shows "currentTimemarkToPercent (hs @ '':'' @ ms @ '':'' @ ss @ fpart) tot
           = Some \<lfloor>real ((dec_val hs * 3600 + dec_val ms * 60 + dec_val ss) * 100) / real_of_int tot\<rfloor>
       \<and> currentTimemarkToPercent ''1:02:03'' 3800 = Some 97"
proof -
  let ?scaled = "(dec_val hs * 3600 + dec_val ms * 60 + dec_val ss) * 100"
  from assms(7) have point: "fpart = [] \<or> (\<exists>fs. fpart = CHR ''.'' # fs \<and> list_all is_digit fs)"
    by blast
  have fields: "split_on CHR '':'' (hs @ '':'' @ ms @ '':'' @ ss @ fpart) = [hs, ms, ss @ fpart]"
    using assms(2,4,6) point by (rule timemark_fields)
  have h: "to_number hs = Some (dec_val hs)" and m: "to_number ms = Some (dec_val ms)"
    using assms(1-4) by (simp_all add: to_number_def)
  have s: "floor_number (ss @ fpart) = Some (dec_val ss)"
    using assms(5-7) by (rule floor_number_literal)
  have bound: "int ?scaled \<le> 2 ^ 53"
    using assms(10) by (metis of_nat_le_iff of_nat_numeral of_nat_power)
  have "currentTimemarkToPercent (hs @ '':'' @ ms @ '':'' @ ss @ fpart) tot
          = Some (int ?scaled div tot)"
    unfolding currentTimemarkToPercent_def fields
    using h m s bound assms(8,9) by (simp add: field_def Let_def)
  moreover have "\<lfloor>real ?scaled / real_of_int tot\<rfloor> = int ?scaled div tot"
    by (metis floor_divide_of_int_eq of_int_of_nat_eq)
  moreover have "currentTimemarkToPercent ''1:02:03'' 3800 = Some 97"
    by (simp add: currentTimemarkToPercent_def field_def to_number_def floor_number_def
        is_digit_def dec_val_def digit_val_def Let_def)
  ultimately show ?thesis by simp
qed

theorem currentTimemarkToPercent_formula_witness:
  "currentTimemarkToPercent ''0:10:30.50'' 1800
     = Some \<lfloor>real ((dec_val ''0'' * 3600 + dec_val ''10'' * 60 + dec_val ''30'') * 100) / real_of_int 1800\<rfloor>"
proof -
  have d: "''0'' \<noteq> []" "list_all is_digit ''0''" "''10'' \<noteq> []" "list_all is_digit ''10''"
    "''30'' \<noteq> []" "list_all is_digit ''30''"
    by (simp_all add: is_digit_def)
  have f: "''.50'' = [] \<or> (\<exists>fs. ''.50'' = CHR ''.'' # fs \<and> list_all is_digit fs
            \<and> length fs \<le> 6 \<and> dec_val ''30'' < 2 ^ 32)"
    by (simp add: is_digit_def dec_val_def digit_val_def)
  have t: "(0::int) < 1800" "(1800::int) \<le> 2 ^ 53" by simp_all
  have b: "(dec_val ''0'' * 3600 + dec_val ''10'' * 60 + dec_val ''30'') * 100 \<le> 2 ^ 53"
    by (simp add: dec_val_def digit_val_def)
  from currentTimemarkToPercent_formula [OF d f t b] show ?thesis by simp
qed

text \<open>
  C2 as the specification states it fails in its example: for "1:02:03" and a total of
  3800 seconds the function returns 97 (372300 / 3800 = 97.97...), not 98.
\<close>

theorem currentTimemarkToPercent_example_counterexample:
  "currentTimemarkToPercent ''1:02:03'' 3800 \<noteq> Some 98"
  by (simp add: currentTimemarkToPercent_def field_def to_number_def floor_number_def
        is_digit_def dec_val_def digit_val_def Let_def)

section \<open>Properties of the license reader\<close>

text \<open>
  C3 (as the code has it).  For the content
  \<open>cust_id=AAA&product_id=BBB&codec=C1&title=My+Book\<close> the four fields end exactly at
  the \<open>&\<close>: customer AAA, product BBB, codec C1, and the title \<open>My+Book\<close>, taken as it is
  written (nothing turns the \<open>+\<close> into a space).  The result carries the download URL
  built from the first three and that title.
\<close>

theorem extractDownloadURL_example:
  "license_fields_with match_title ''cust_id=AAA&product_id=BBB&codec=C1&title=My+Book''
     = Inr \<lparr>custId = ''AAA'', productId = ''BBB'', codec = ''C1'', title = ''My+Book''\<rparr>
   \<and> extractDownloadURL (Inr ''cust_id=AAA&product_id=BBB&codec=C1&title=My+Book'')
     = Inr \<lparr>url = ''https://cds.audible.de/download?product_id=BBB&cust_id=AAA&codec=C1'',
            dl_title = ''My+Book''\<rparr>"
  by code_simp

text \<open>
  C3 as the specification states it fails: the title that \<open>extractDownloadURL\<close> returns
  for that content is not \<open>My Book\<close>.
\<close>

theorem extractDownloadURL_title_counterexample:
  "extractDownloadURL (Inr ''cust_id=AAA&product_id=BBB&codec=C1&title=My+Book'')
     \<noteq> Inr \<lparr>url = ''https://cds.audible.de/download?product_id=BBB&cust_id=AAA&codec=C1'',
              dl_title = ''My Book''\<rparr>"
  by code_simp

text \<open>
  The older expression for the title, \<open>[\w\s-]+[^&]\<close>, stops one character after the
  first character that is neither a word character, white space nor a dash: on the
  same content it yields \<open>My+\<close>.
\<close>

lemma extractDownloadURL_rev2_example:
  "extractDownloadURL_rev2 (Inr ''cust_id=AAA&product_id=BBB&codec=C1&title=My+Book'')
     = Inr \<lparr>url = ''https://cds.audible.de/download?product_id=BBB&cust_id=AAA&codec=C1'',
            dl_title = ''My+''\<rparr>"
  by code_simp

section \<open>Properties of the cracker adapter\<close>

lemma search_None_iff:
  "search anchored s = None \<longleftrightarrow> (\<forall>pre suf. s = pre @ suf \<longrightarrow> anchored suf = None)"
proof (induction s)
  case Nil
  then show ?case by simp
next
  case (Cons c cs)
  have "(\<forall>pre suf. c # cs = pre @ suf \<longrightarrow> anchored suf = None)
          \<longleftrightarrow> anchored (c # cs) = None \<and> (\<forall>pre suf. cs = pre @ suf \<longrightarrow> anchored suf = None)"
    by (auto simp: Cons_eq_append_conv)
  with Cons.IH show ?case
    by (simp split: option.splits)
qed

lemma literal_Some_iff: "literal lit s = Some r \<longleftrightarrow> s = lit @ r"
  by (auto simp: literal_def) (metis append_take_drop_id)

lemma exactly_Some_iff:
  "exactly n C s = Some g \<longleftrightarrow> (\<exists>post. s = g @ post \<and> length g = n \<and> list_all C g)"
proof
  assume "exactly n C s = Some g"
  then have "n \<le> length s" and "list_all C (take n s)" and "g = take n s"
    by (auto simp: exactly_def split: if_splits)
  then have "s = g @ drop n s \<and> length g = n \<and> list_all C g" by simp
  then show "\<exists>post. s = g @ post \<and> length g = n \<and> list_all C g" by blast
next
  assume "\<exists>post. s = g @ post \<and> length g = n \<and> list_all C g"
  then show "exactly n C s = Some g" by (auto simp: exactly_def)
qed

lemma hex_anchored_Some_iff:
  "Option.bind (literal ''hex:'' s) (exactly 8 hex_char) = Some g
     \<longleftrightarrow> (\<exists>post. s = ''hex:'' @ g @ post \<and> length g = 8 \<and> list_all hex_char g)"
proof -
  have "Option.bind (literal ''hex:'' s) (exactly 8 hex_char) = Some g
          \<longleftrightarrow> (\<exists>r. s = ''hex:'' @ r \<and> (\<exists>post. r = g @ post \<and> length g = 8 \<and> list_all hex_char g))"
    by (simp only: bind_eq_Some_conv literal_Some_iff exactly_Some_iff)
  then show ?thesis by blast
qed

lemma match_hex_None_iff:
  "match_hex out = None
     \<longleftrightarrow> \<not> (\<exists>pre g post. out = pre @ ''hex:'' @ g @ post \<and> length g = 8 \<and> list_all hex_char g)"
proof -
  have "match_hex out = None
          \<longleftrightarrow> (\<forall>pre suf. out = pre @ suf
                 \<longrightarrow> Option.bind (literal ''hex:'' suf) (exactly 8 hex_char) = None)"
    unfolding match_hex_def by (rule search_None_iff)
  also have "\<dots> \<longleftrightarrow> (\<forall>pre suf. out = pre @ suf
                 \<longrightarrow> (\<forall>g. Option.bind (literal ''hex:'' suf) (exactly 8 hex_char) \<noteq> Some g))"
    by auto
  also have "\<dots> \<longleftrightarrow> \<not> (\<exists>pre g post. out = pre @ ''hex:'' @ g @ post \<and> length g = 8
                 \<and> list_all hex_char g)"
    unfolding hex_anchored_Some_iff by blast
  finally show ?thesis .
qed

lemma search_Some_anchored:
  "search anchored s = Some g \<Longrightarrow> \<exists>pre suf. s = pre @ suf \<and> anchored suf = Some g"
proof (induction s)
  case Nil
  then show ?case by simp
next
  case (Cons c cs)
  show ?case
  proof (cases "anchored (c # cs)")
    case None
    with Cons.prems have "search anchored cs = Some g" by simp
    with Cons.IH obtain pre suf where "cs = pre @ suf" "anchored suf = Some g" by blast
    then have "c # cs = (c # pre) @ suf \<and> anchored suf = Some g" by simp
    then show ?thesis by blast
  next
    case (Some a)
    with Cons.prems have "c # cs = [] @ (c # cs) \<and> anchored (c # cs) = Some g" by simp
    then show ?thesis by blast
  qed
qed

lemma match_hex_Some:
  assumes "match_hex out = Some g"
  shows "length g = 8 \<and> list_all hex_char g \<and> (\<exists>pre post. out = pre @ ''hex:'' @ g @ post)"
proof -
  from assms obtain pre suf where "out = pre @ suf"
    and "Option.bind (literal ''hex:'' suf) (exactly 8 hex_char) = Some g"
    unfolding match_hex_def by (blast dest: search_Some_anchored)
  then show ?thesis
    unfolding hex_anchored_Some_iff by blast
qed

text \<open>
  C8.  \<open>lookupChecksum\<close> searches the standard output that \<open>rcrack\<close> resolved with for
  \<open>hex:\<close> followed by eight hexadecimal digits.  When that output holds no such
  occurrence, the promise is rejected with the error "Activation Bytes where not
  found!", whatever the process does afterwards (its exit code is never read).  When
  it holds one, the promise is fulfilled and eight hexadecimal digits that follow a
  \<open>hex:\<close> in the output are printed.
\<close>

theorem lookupChecksum_not_found:
  "(\<not> (\<exists>pre g post. out = pre @ ''hex:'' @ g @ post \<and> length g = 8 \<and> list_all hex_char g)
      \<longrightarrow> lookupChecksum checksum (StdoutData out # later)
            = ([ConsoleLog (''Looking up activation bytes for checksum: '' @ checksum),
                ConsoleLog ''This might take a moment ...''],
               Rejected (Error ''Activation Bytes where not found!'')))
   \<and> ((\<exists>pre g post. out = pre @ ''hex:'' @ g @ post \<and> length g = 8 \<and> list_all hex_char g)
      \<longrightarrow> (\<exists>g. length g = 8 \<and> list_all hex_char g \<and> (\<exists>pre post. out = pre @ ''hex:'' @ g @ post)
            \<and> lookupChecksum checksum (StdoutData out # later)
              = ([ConsoleLog (''Looking up activation bytes for checksum: '' @ checksum),
                  ConsoleLog ''This might take a moment ...'',
                  ConsoleLog (''Activation Bytes found: '' @ g)],
                 Resolved ())))"
proof (intro conjI impI)
  assume "\<not> (\<exists>pre g post. out = pre @ ''hex:'' @ g @ post \<and> length g = 8 \<and> list_all hex_char g)"
  then have "match_hex out = None"
    by (rule match_hex_None_iff [THEN iffD2])
  then show "lookupChecksum checksum (StdoutData out # later)
            = ([ConsoleLog (''Looking up activation bytes for checksum: '' @ checksum),
                ConsoleLog ''This might take a moment ...''],
               Rejected (Error ''Activation Bytes where not found!''))"
    by (simp add: lookupChecksum_def)
next
  assume "\<exists>pre g post. out = pre @ ''hex:'' @ g @ post \<and> length g = 8 \<and> list_all hex_char g"
  then have "match_hex out \<noteq> None"
    using match_hex_None_iff [of out] by blast
  then obtain g where g: "match_hex out = Some g" by blast
  then have "lookupChecksum checksum (StdoutData out # later)
              = ([ConsoleLog (''Looking up activation bytes for checksum: '' @ checksum),
                  ConsoleLog ''This might take a moment ...'',
                  ConsoleLog (''Activation Bytes found: '' @ g)],
                 Resolved ())"
    by (simp add: lookupChecksum_def)
  with match_hex_Some [OF g]
  show "\<exists>g. length g = 8 \<and> list_all hex_char g \<and> (\<exists>pre post. out = pre @ ''hex:'' @ g @ post)
            \<and> lookupChecksum checksum (StdoutData out # later)
              = ([ConsoleLog (''Looking up activation bytes for checksum: '' @ checksum),
                  ConsoleLog ''This might take a moment ...'',
                  ConsoleLog (''Activation Bytes found: '' @ g)],
                 Resolved ())"
    by blast
qed

theorem lookupChecksum_not_found_witness:
  "snd (lookupChecksum ''0123456789abcdef0123'' [StdoutData ''statistics: hex:<notfound>''])
     = Rejected (Error ''Activation Bytes where not found!'')
   \<and> snd (lookupChecksum ''0123456789abcdef0123'' [StdoutData ''result hex:1ceb00da ok''])
     = Resolved ()"
proof -
  have "match_hex ''statistics: hex:<notfound>'' = None" by code_simp
  then have h1: "\<not> (\<exists>pre g post. ''statistics: hex:<notfound>'' = pre @ ''hex:'' @ g @ post
                    \<and> length g = 8 \<and> list_all hex_char g)"
    by (rule match_hex_None_iff [THEN iffD1])
  have "''result hex:1ceb00da ok'' = ''result '' @ ''hex:'' @ ''1ceb00da'' @ '' ok''
          \<and> length ''1ceb00da'' = 8 \<and> list_all hex_char ''1ceb00da''"
    by (simp add: hex_char_def)
  then have h2: "\<exists>pre g post. ''result hex:1ceb00da ok'' = pre @ ''hex:'' @ g @ post
                    \<and> length g = 8 \<and> list_all hex_char g"
    by (intro exI)
  note not_found = lookupChecksum_not_found
    [of "''statistics: hex:<notfound>''" "''0123456789abcdef0123''" "[]", THEN conjunct1, rule_format, OF h1]
  note found = lookupChecksum_not_found
    [of "''result hex:1ceb00da ok''" "''0123456789abcdef0123''" "[]", THEN conjunct2, rule_format, OF h2]
  have r1: "snd (lookupChecksum ''0123456789abcdef0123'' [StdoutData ''statistics: hex:<notfound>''])
     = Rejected (Error ''Activation Bytes where not found!'')"
    by (simp only: not_found snd_conv)
  from found obtain g where
    "lookupChecksum ''0123456789abcdef0123'' [StdoutData ''result hex:1ceb00da ok'']
       = ([ConsoleLog (''Looking up activation bytes for checksum: '' @ ''0123456789abcdef0123''),
           ConsoleLog ''This might take a moment ...'',
           ConsoleLog (''Activation Bytes found: '' @ g)],
          Resolved ())"
    by blast
  then have r2: "snd (lookupChecksum ''0123456789abcdef0123'' [StdoutData ''result hex:1ceb00da ok''])
     = Resolved ()"
    by (simp only: snd_conv)
  from r1 r2 show ?thesis by (rule conjI)
qed

text \<open>
  The promise of \<open>rcrack\<close> settles at the first chunk, so the search sees that chunk
  only.  A run whose whole standard output holds no answer is rejected all the same,
  since no chunk of it holds one.
\<close>

lemma lookupChecksum_not_found_whole_output:
  assumes "\<not> (\<exists>pre g post. stdout_text (StdoutData out # later) = pre @ ''hex:'' @ g @ post
                \<and> length g = 8 \<and> list_all hex_char g)"
  shows "snd (lookupChecksum checksum (StdoutData out # later))
           = Rejected (Error ''Activation Bytes where not found!'')"
proof -
  have "\<not> (\<exists>pre g post. out = pre @ ''hex:'' @ g @ post \<and> length g = 8 \<and> list_all hex_char g)"
  proof
    assume "\<exists>pre g post. out = pre @ ''hex:'' @ g @ post \<and> length g = 8 \<and> list_all hex_char g"
    then obtain pre g post where "out = pre @ ''hex:'' @ g @ post"
      and g: "length g = 8" "list_all hex_char g" by blast
    then have "stdout_text (StdoutData out # later)
                 = pre @ ''hex:'' @ g @ (post @ stdout_text later)"
      by simp
    with g assms show False by blast
  qed
  then have "match_hex out = None"
    by (rule match_hex_None_iff [THEN iffD2])
  then show ?thesis by (simp add: lookupChecksum_def)
qed

end
